theory Spec2Isabelle
  imports Complex_Main "HOL-Library.Word"
begin

unbundle bit_operations_syntax

section \<open>Python values used by s3mtowav.py\<close>

text \<open>
  The file \<^verbatim>\<open>src/s3mtowav.py\<close> has three parts that matter here: \<^verbatim>\<open>S3MParser.read_s3m\<close>
  (the parser), \<^verbatim>\<open>S3MRenderer.note_to_freq\<close> and \<^verbatim>\<open>S3MRenderer.render\<close> (the mixer).
  Each is embedded as a HOL function of the same name.

  \<^item> An element of a Python \<^verbatim>\<open>bytes\<close> object is a \<open>byte\<close> (an 8-bit word); Python reads
    it as the integer \<open>unat b\<close>.
  \<^item> Python integers are \<open>nat\<close> where the source can only produce non-negative values
    (lengths, offsets, unpacked unsigned fields) and \<open>int\<close> otherwise.
  \<^item> A raised exception is the left summand of \<open>py_error + 'a\<close>.
  \<^item> A Python \<^verbatim>\<open>float\<close> is a rational number, and every floating-point operation of the
    source is written \<open>rnd (exact result)\<close>, where \<open>rnd :: rat \<Rightarrow> rat\<close> is a parameter of
    the embedding: the rounding of the arithmetic. Nothing is assumed about \<open>rnd\<close> unless a
    theorem says so; \<open>exact\<close> is arithmetic without rounding. Where Python still holds an
    \<^verbatim>\<open>int\<close> (the sum of a sample before the first channel adds to it, a position right
    after a trigger), the model rounds a small integer, which binary64 leaves as it is.
\<close>

type_synonym byte = "8 word"

datatype py_error =
    Exception string
  | StructError
  | IndexError
  | ZeroDivisionError
  | ValueError

definition exact :: "rat \<Rightarrow> rat" where
  "exact x = x"

text \<open>\<^verbatim>\<open>int(x)\<close> of a float truncates towards zero.\<close>

definition py_int :: "rat \<Rightarrow> int" where
  "py_int x = (if 0 \<le> x then \<lfloor>x\<rfloor> else \<lceil>x\<rceil>)"

text \<open>\<^verbatim>\<open>xs[a:b]\<close> for \<open>0 \<le> a\<close>, \<open>0 \<le> b\<close>: the elements from \<open>a\<close> up to \<open>b\<close>, cut at the end of \<open>xs\<close>.\<close>

definition slice :: "'a list \<Rightarrow> nat \<Rightarrow> nat \<Rightarrow> 'a list" where
  "slice xs a b = take (b - a) (drop a xs)"

text \<open>\<^verbatim>\<open>xs[i]\<close> for an integer \<open>i\<close>: a negative index counts from the end, an index out of
  range raises \<^verbatim>\<open>IndexError\<close>.\<close>

definition py_index :: "'a list \<Rightarrow> int \<Rightarrow> py_error + 'a" where
  "py_index xs i =
     (if 0 \<le> i \<and> i < int (length xs) then Inr (xs ! nat i)
      else if i < 0 \<and> - i \<le> int (length xs) then Inr (xs ! nat (int (length xs) + i))
      else Inl IndexError)"

text \<open>\<^verbatim>\<open>bs.decode('ascii', errors='ignore').rstrip('\0')\<close>.\<close>

definition decode_ascii :: "byte list \<Rightarrow> string" where
  "decode_ascii bs = map (\<lambda>b. char_of (unat b)) (filter (\<lambda>b. b < 128) bs)"

definition rstrip_nul :: "string \<Rightarrow> string" where
  "rstrip_nul s = rev (dropWhile (\<lambda>c. c = CHR 0x00) (rev s))"

subsection \<open>struct.unpack\<close>

text \<open>\<^verbatim>\<open>struct.unpack\<close> raises \<^verbatim>\<open>struct.error\<close> (here \<open>None\<close>) unless the buffer has exactly
  the size of the format. All formats of the source are little-endian and unsigned.\<close>

definition le16 :: "byte \<Rightarrow> byte \<Rightarrow> nat" where
  "le16 lo hi = unat lo + 256 * unat hi"

definition le32 :: "byte \<Rightarrow> byte \<Rightarrow> byte \<Rightarrow> byte \<Rightarrow> nat" where
  "le32 b0 b1 b2 b3 = unat b0 + 256 * unat b1 + 65536 * unat b2 + 16777216 * unat b3"

definition unpack_H :: "byte list \<Rightarrow> nat option" where
  "unpack_H bs = (if length bs = 2 then Some (le16 (bs ! 0) (bs ! 1)) else None)"

definition unpack_HHH :: "byte list \<Rightarrow> (nat \<times> nat \<times> nat) option" where
  "unpack_HHH bs =
     (if length bs = 6
      then Some (le16 (bs ! 0) (bs ! 1), le16 (bs ! 2) (bs ! 3), le16 (bs ! 4) (bs ! 5))
      else None)"

definition unpack_LHHHB :: "byte list \<Rightarrow> (nat \<times> nat \<times> nat \<times> nat \<times> nat) option" where
  "unpack_LHHHB bs =
     (if length bs = 11
      then Some (le32 (bs ! 0) (bs ! 1) (bs ! 2) (bs ! 3), le16 (bs ! 4) (bs ! 5),
                 le16 (bs ! 6) (bs ! 7), le16 (bs ! 8) (bs ! 9), unat (bs ! 10))
      else None)"

fun le16s :: "byte list \<Rightarrow> nat list" where
  "le16s (lo # hi # bs) = le16 lo hi # le16s bs"
| "le16s _ = []"

text \<open>The format \<^verbatim>\<open>f'<{n}H'\<close>: \<open>n\<close> 16-bit values from exactly \<open>2 * n\<close> bytes.\<close>

definition unpack_nH :: "nat \<Rightarrow> byte list \<Rightarrow> nat list option" where
  "unpack_nH n bs = (if length bs = 2 * n then Some (le16s bs) else None)"

section \<open>The data model\<close>

text \<open>The dictionaries of the source are records; the keys of different dictionaries that
  share a name get a prefix (\<open>i_\<close> instrument, \<open>e_\<close> event, \<open>c_\<close> channel state).\<close>

record instrument =
  i_name :: string
  i_sample :: "byte list"
  i_length :: nat
  i_loop_begin :: nat
  i_loop_end :: nat
  i_volume :: rat

record event =
  e_note :: "byte option"
  e_instrument :: "byte option"
  e_volume :: "byte option"
  e_effect :: "(byte \<times> byte) option"

type_synonym row = "event option list"
type_synonym pattern = "row list"

text \<open>The fields of an \<^verbatim>\<open>S3MParser\<close> object after \<^verbatim>\<open>read_s3m\<close> (without the file name).\<close>

record s3m_parser =
  title :: string
  orders :: "byte list"
  instruments :: "instrument list"
  patterns :: "pattern list"
  num_orders :: nat
  num_instruments :: nat
  num_patterns :: nat
  sample_rate :: nat
  channels :: nat
  tempo :: nat
  speed :: nat

section \<open>S3MParser.read_s3m\<close>

subsection \<open>Instruments\<close>

text \<open>Line 96: \<^verbatim>\<open>(b + 128) & 0xFF\<close> on a byte read from the file, computed on Python's
  unbounded integers and stored as a byte again.\<close>

definition to_unsigned :: "byte \<Rightarrow> byte" where
  "to_unsigned b = word_of_int ((uint b + 128) AND 0xFF)"

text \<open>The body of the loop over the instrument pointers (lines 79 to 107); \<open>None\<close> when the
  loop appends nothing for this pointer.\<close>

definition parse_instrument :: "(rat \<Rightarrow> rat) \<Rightarrow> byte list \<Rightarrow> nat \<Rightarrow> instrument option" where
  "parse_instrument rnd data ptr0 =
     (let ptr = ptr0 * 16 in
      if ptr + 24 > length data then None
      else if data ! ptr = 1 then
        (let inst_name = rstrip_nul (decode_ascii (slice data (ptr + 1) (ptr + 13))) in
         case unpack_LHHHB (slice data (ptr + 13) (ptr + 24)) of
           None \<Rightarrow> None
         | Some (sample_ptr0, sample_len, loop_begin, loop_end, volume) \<Rightarrow>
             (let sample_ptr = sample_ptr0 * 16 in
              if sample_ptr + sample_len > length data then None
              else
                Some \<lparr>i_name = inst_name,
                      i_sample = map to_unsigned (slice data sample_ptr (sample_ptr + sample_len)),
                      i_length = sample_len,
                      i_loop_begin = loop_begin,
                      i_loop_end = loop_end,
                      i_volume = rnd (of_nat volume / 64)\<rparr>))
      else None)"

text \<open>The loop itself: \<^verbatim>\<open>self.instruments\<close> grows by one entry for each pointer that parses,
  in the order of the pointer table.\<close>

fun parse_instruments :: "(rat \<Rightarrow> rat) \<Rightarrow> byte list \<Rightarrow> nat list \<Rightarrow> instrument list" where
  "parse_instruments rnd data [] = []"
| "parse_instruments rnd data (ptr # ptrs) =
     (case parse_instrument rnd data ptr of
        None \<Rightarrow> parse_instruments rnd data ptrs
      | Some inst \<Rightarrow> inst # parse_instruments rnd data ptrs)"

subsection \<open>Patterns\<close>

text \<open>One pass through the body of the \<^verbatim>\<open>while\<close> loop from line 136 on, entered with
  \<open>i < length pattern_data\<close> and a non-zero byte at \<open>i\<close>. \<open>Inl i'\<close> is a \<^verbatim>\<open>break\<close> with the index
  at \<open>i'\<close>; \<open>Inr (channel, ev, i')\<close> reaches line 165 with the event to store.\<close>

definition decode_event :: "byte list \<Rightarrow> nat \<Rightarrow> nat + (nat \<times> event \<times> nat)" where
  "decode_event pattern_data i0 =
     (let what = pattern_data ! i0;
          i1 = i0 + 1;
          channel = unat (what AND 31)
      in
      if what AND 32 \<noteq> 0 \<and> i1 + 2 > length pattern_data then Inl i1
      else
        let note = (if what AND 32 \<noteq> 0 then Some (pattern_data ! i1) else None);
            instrument = (if what AND 32 \<noteq> 0 then Some (pattern_data ! (i1 + 1)) else None);
            i2 = (if what AND 32 \<noteq> 0 then i1 + 2 else i1)
        in
        if what AND 64 \<noteq> 0 \<and> i2 + 1 > length pattern_data then Inl i2
        else
          let volume = (if what AND 64 \<noteq> 0 then Some (pattern_data ! i2) else None);
              i3 = (if what AND 64 \<noteq> 0 then i2 + 1 else i2)
          in
          if what AND 128 \<noteq> 0 \<and> i3 + 2 > length pattern_data then Inl i3
          else
            let effect = (if what AND 128 \<noteq> 0
                          then Some (pattern_data ! i3, pattern_data ! (i3 + 1)) else None);
                i4 = (if what AND 128 \<noteq> 0 then i3 + 2 else i3)
            in Inr (channel,
                    \<lparr>e_note = note, e_instrument = instrument, e_volume = volume,
                     e_effect = effect\<rparr>,
                    i4))"

lemma decode_event_advances:
  "decode_event pattern_data i = Inr (channel, ev, i') \<Longrightarrow> i < i'"
  by (auto simp: decode_event_def Let_def split: if_splits)

text \<open>The \<^verbatim>\<open>while i < len(pattern_data)\<close> loop of one row (lines 128 to 165): the index and
  the row after the loop. The channel \<open>what & 31\<close> is below 32, the length of the row, so
  the assignment on line 165 is always in range.\<close>

function decode_row :: "byte list \<Rightarrow> nat \<Rightarrow> row \<Rightarrow> nat \<times> row" where
  "decode_row pattern_data i row =
     (if i < length pattern_data then
        (if pattern_data ! i = 0 then (i + 1, row)
         else if i + 1 > length pattern_data then (i, row)
         else
           (case decode_event pattern_data i of
              Inl i' \<Rightarrow> (i', row)
            | Inr (channel, ev, i') \<Rightarrow> decode_row pattern_data i' (row[channel := Some ev])))
      else (i, row))"
  by pat_completeness auto
termination
  by (relation "measure (\<lambda>(pattern_data, i, row). length pattern_data - i)")
     (auto dest: decode_event_advances)

declare decode_row.simps [simp del]

text \<open>The \<^verbatim>\<open>for row_idx in range(n)\<close> loop (line 125, with \<open>n = 64\<close>): the index \<open>i\<close> is shared by
  all rows, and each row starts as \<^verbatim>\<open>[None] * self.channels\<close>.\<close>

fun decode_rows :: "nat \<Rightarrow> byte list \<Rightarrow> nat \<Rightarrow> nat \<Rightarrow> row list" where
  "decode_rows nchan pattern_data 0 i = []"
| "decode_rows nchan pattern_data (Suc n) i =
     (case decode_row pattern_data i (replicate nchan None) of
        (i', row) \<Rightarrow> row # decode_rows nchan pattern_data n i')"

text \<open>The body of the loop over the pattern pointers (lines 111 to 170); \<open>None\<close> when the
  loop appends nothing for this pointer.\<close>

definition parse_pattern :: "nat \<Rightarrow> byte list \<Rightarrow> nat \<Rightarrow> pattern option" where
  "parse_pattern nchan data ptr0 =
     (let ptr = ptr0 * 16 in
      if ptr + 2 > length data then None
      else
        case unpack_H (slice data ptr (ptr + 2)) of
          None \<Rightarrow> None
        | Some packed_len \<Rightarrow>
            if ptr + 2 + packed_len > length data then None
            else Some (decode_rows nchan (slice data (ptr + 2) (ptr + 2 + packed_len)) 64 0))"

fun parse_patterns :: "nat \<Rightarrow> byte list \<Rightarrow> nat list \<Rightarrow> pattern list" where
  "parse_patterns nchan data [] = []"
| "parse_patterns nchan data (ptr # ptrs) =
     (case parse_pattern nchan data ptr of
        None \<Rightarrow> parse_patterns nchan data ptrs
      | Some rows \<Rightarrow> rows # parse_patterns nchan data ptrs)"

subsection \<open>The header and the tables\<close>

text \<open>The three counts at offset 28 (line 50) and the two pointer tables (lines 67 to 73),
  as functions of the file, for use in statements about \<open>read_s3m\<close>.\<close>

definition header_counts :: "byte list \<Rightarrow> (nat \<times> nat \<times> nat) option" where
  "header_counts data = unpack_HHH (slice data 28 34)"

definition inst_ptrs_of :: "byte list \<Rightarrow> nat list option" where
  "inst_ptrs_of data =
     (case header_counts data of
        None \<Rightarrow> None
      | Some (n_orders, n_instruments, n_patterns) \<Rightarrow>
          unpack_nH n_instruments
            (slice data (96 + n_orders) (96 + n_orders + 2 * n_instruments)))"

definition pattern_ptrs_of :: "byte list \<Rightarrow> nat list option" where
  "pattern_ptrs_of data =
     (case header_counts data of
        None \<Rightarrow> None
      | Some (n_orders, n_instruments, n_patterns) \<Rightarrow>
          unpack_nH n_patterns
            (slice data (96 + n_orders + 2 * n_instruments)
               (96 + n_orders + 2 * n_instruments + 2 * n_patterns)))"

text \<open>\<^verbatim>\<open>read_s3m\<close> from line 42 on, applied to the bytes of the file. The constants 44100, 32,
  125 and 6 are the ones \<^verbatim>\<open>__init__\<close> stores. The exceptions the source raises itself are
  \<open>Exception\<close> with its message; an uncaught \<^verbatim>\<open>struct.error\<close> is \<open>StructError\<close>.\<close>

definition read_s3m :: "(rat \<Rightarrow> rat) \<Rightarrow> byte list \<Rightarrow> py_error + s3m_parser" where
  "read_s3m rnd data =
     (if length data < 96 then Inl (Exception ''File too small to be a valid S3M'')
      else
        case header_counts data of
          None \<Rightarrow> Inl (Exception ''Invalid S3M header'')
        | Some (n_orders, n_instruments, n_patterns) \<Rightarrow>
            (case unpack_H (slice data 38 40) of
               None \<Rightarrow> Inl StructError
             | Some flags \<Rightarrow>
                 (let order_start = 96 in
                  if order_start + n_orders > length data
                  then Inl (Exception ''Order list exceeds file size'')
                  else
                    let inst_ptr_start = order_start + n_orders;
                        pattern_ptr_start = inst_ptr_start + 2 * n_instruments
                    in
                    if pattern_ptr_start + 2 * n_patterns > length data
                    then Inl (Exception ''Pattern pointers exceed file size'')
                    else
                      case inst_ptrs_of data of
                        None \<Rightarrow> Inl StructError
                      | Some inst_ptrs \<Rightarrow>
                          (case pattern_ptrs_of data of
                             None \<Rightarrow> Inl StructError
                           | Some pattern_ptrs \<Rightarrow>
                               Inr \<lparr>title = rstrip_nul (decode_ascii (slice data 0 28)),
                                    orders = slice data order_start (order_start + n_orders),
                                    instruments = parse_instruments rnd data inst_ptrs,
                                    patterns = parse_patterns 32 data pattern_ptrs,
                                    num_orders = n_orders,
                                    num_instruments = n_instruments,
                                    num_patterns = n_patterns,
                                    sample_rate = 44100,
                                    channels = 32,
                                    tempo = 125,
                                    speed = 6\<rparr>))))"

section \<open>S3MRenderer\<close>

subsection \<open>note_to_freq\<close>

definition note_table :: "rat list" where
  "note_table =
     [26163 / 100, 27718 / 100, 29366 / 100, 31113 / 100, 32963 / 100, 34923 / 100,
      36999 / 100, 39200 / 100, 41530 / 100, 44000 / 100, 46616 / 100, 49388 / 100]"

text \<open>Lines 179 to 193. The note is \<^verbatim>\<open>None\<close> or a byte of the pattern data; \<^verbatim>\<open>note >> 4\<close> is
  \<open>drop_bit 4\<close>. The entries of the table are float literals, and \<^verbatim>\<open>2 ** (octave - 4)\<close> is
  an exact power of two (an \<^verbatim>\<open>int\<close> or a \<^verbatim>\<open>float\<close>), so the first product rounds once; the
  source then computes \<^verbatim>\<open>(freq * c2spd) / 8363\<close> from left to right.\<close>

definition note_to_freq :: "(rat \<Rightarrow> rat) \<Rightarrow> byte option \<Rightarrow> rat \<Rightarrow> rat" where
  "note_to_freq rnd note c2spd =
     (case note of
        None \<Rightarrow> 0
      | Some n \<Rightarrow>
          if n = 254 then 0
          else
            let octave = unat (drop_bit 4 n);
                nt = unat (n AND 0x0F)
            in
            if nt \<ge> length note_table then 0
            else
              let freq = rnd (rnd (note_table ! nt) * 2 powi (int octave - 4));
                  result = rnd (rnd (freq * c2spd) / 8363)
              in result)"

subsection \<open>Channel states\<close>

record channel_state =
  sample_pos :: rat
  increment :: rat
  c_volume :: rat
  playing :: bool
  c_instrument :: "instrument option"

text \<open>Line 176: one state for each of \<^verbatim>\<open>parser.channels\<close> channels.\<close>

definition init_channel_states :: "s3m_parser \<Rightarrow> channel_state list" where
  "init_channel_states parser =
     replicate (channels parser)
       \<lparr>sample_pos = 0, increment = 0, c_volume = 0, playing = False, c_instrument = None\<rparr>"

subsection \<open>Processing the events of a row\<close>

text \<open>Lines 212 to 225 for the event in slot \<open>ch\<close> of a row. An instrument byte that is
  absent or 0 gives \<^verbatim>\<open>inst_idx = None\<close>. \<^verbatim>\<open>self.channel_states[ch]\<close> raises \<^verbatim>\<open>IndexError\<close>
  for a slot beyond the channel states, and the division by the sample rate raises
  \<^verbatim>\<open>ZeroDivisionError\<close> for a sample rate of 0.\<close>

definition process_event ::
  "(rat \<Rightarrow> rat) \<Rightarrow> s3m_parser \<Rightarrow> channel_state list \<Rightarrow> nat \<Rightarrow> event option
     \<Rightarrow> py_error + channel_state list" where
  "process_event rnd parser channel_states ch event =
     (case event of
        None \<Rightarrow> Inr channel_states
      | Some ev \<Rightarrow>
          (case e_note ev of
             None \<Rightarrow> Inr channel_states
           | Some note \<Rightarrow>
               if note = 254 then
                 (if ch < length channel_states
                  then Inr (channel_states[ch := (channel_states ! ch)\<lparr>playing := False\<rparr>])
                  else Inl IndexError)
               else
                 let inst_idx =
                       (case e_instrument ev of
                          None \<Rightarrow> None
                        | Some k \<Rightarrow> if k = 0 then None else Some (unat k - 1))
                 in
                 (case inst_idx of
                    None \<Rightarrow> Inr channel_states
                  | Some idx \<Rightarrow>
                      if idx < length (instruments parser) then
                        (if ch < length channel_states then
                           (if sample_rate parser = 0 then Inl ZeroDivisionError
                            else
                              Inr (channel_states[ch := (channel_states ! ch)
                                \<lparr>sample_pos := 0,
                                 increment :=
                                   rnd (note_to_freq rnd (Some note) 8363
                                          / of_nat (sample_rate parser)),
                                 c_volume :=
                                   (case e_volume ev of
                                      Some v \<Rightarrow> rnd (of_nat (unat v) / 64)
                                    | None \<Rightarrow> i_volume (instruments parser ! idx)),
                                 playing := True,
                                 c_instrument := Some (instruments parser ! idx)\<rparr>]))
                         else Inl IndexError)
                      else Inr channel_states)))"

text \<open>Line 211: \<^verbatim>\<open>for ch, event in enumerate(row)\<close>, from slot \<open>ch\<close> on.\<close>

fun process_row ::
  "(rat \<Rightarrow> rat) \<Rightarrow> s3m_parser \<Rightarrow> channel_state list \<Rightarrow> nat \<Rightarrow> row
     \<Rightarrow> py_error + channel_state list" where
  "process_row rnd parser channel_states ch [] = Inr channel_states"
| "process_row rnd parser channel_states ch (event # row) =
     (case process_event rnd parser channel_states ch event of
        Inl e \<Rightarrow> Inl e
      | Inr channel_states' \<Rightarrow> process_row rnd parser channel_states' (Suc ch) row)"

subsection \<open>Mixing one output sample\<close>

text \<open>Lines 242 and 243: read the sample byte at \<open>pos\<close>, add the contribution of the channel
  to the running sum and advance the position of the channel.\<close>

definition recenter :: "byte \<Rightarrow> int" where
  "recenter b = int (unat b) - 128"

definition add_sample ::
  "(rat \<Rightarrow> rat) \<Rightarrow> channel_state list \<Rightarrow> nat \<Rightarrow> instrument \<Rightarrow> int \<Rightarrow> rat
     \<Rightarrow> py_error + (rat \<times> channel_state list)" where
  "add_sample rnd channel_states ch inst pos sample =
     (case py_index (i_sample inst) pos of
        Inl e \<Rightarrow> Inl e
      | Inr b \<Rightarrow>
          let state = channel_states ! ch in
          Inr (rnd (sample + rnd (of_int (recenter b) * c_volume state)),
               channel_states[ch := state\<lparr>sample_pos :=
                  rnd (sample_pos state + increment state)\<rparr>]))"

text \<open>Lines 231 to 243 for channel \<open>ch\<close>: the running sum and the channel states after it.
  A dictionary is true, so \<^verbatim>\<open>state['instrument']\<close> is true when it is not \<^verbatim>\<open>None\<close>.\<close>

definition mix_channel ::
  "(rat \<Rightarrow> rat) \<Rightarrow> channel_state list \<Rightarrow> nat \<Rightarrow> rat
     \<Rightarrow> py_error + (rat \<times> channel_state list)" where
  "mix_channel rnd channel_states ch sample =
     (if ch < length channel_states then
        (let state = channel_states ! ch in
         if playing state then
           (case c_instrument state of
              None \<Rightarrow> Inr (sample, channel_states)
            | Some inst \<Rightarrow>
                (let pos = py_int (sample_pos state) in
                 if pos \<ge> int (i_length inst) then
                   (if i_loop_end inst > i_loop_begin inst then
                      add_sample rnd channel_states ch inst
                        (int (i_loop_begin inst)
                           + (pos - int (i_loop_end inst))
                               mod (int (i_loop_end inst) - int (i_loop_begin inst)))
                        sample
                    else Inr (sample, channel_states[ch := state\<lparr>playing := False\<rparr>]))
                 else add_sample rnd channel_states ch inst pos sample))
         else Inr (sample, channel_states))
      else Inl IndexError)"

text \<open>Line 230: \<^verbatim>\<open>for ch in range(self.parser.channels)\<close>, over the list of channel numbers.\<close>

fun mix_channels ::
  "(rat \<Rightarrow> rat) \<Rightarrow> channel_state list \<Rightarrow> nat list \<Rightarrow> rat
     \<Rightarrow> py_error + (rat \<times> channel_state list)" where
  "mix_channels rnd channel_states [] sample = Inr (sample, channel_states)"
| "mix_channels rnd channel_states (ch # chs) sample =
     (case mix_channel rnd channel_states ch sample of
        Inl e \<Rightarrow> Inl e
      | Inr (sample', channel_states') \<Rightarrow> mix_channels rnd channel_states' chs sample')"

text \<open>Line 244: \<^verbatim>\<open>max(min(int(sample * 128 + 128), 255), 0)\<close>.\<close>

definition to_pcm :: "(rat \<Rightarrow> rat) \<Rightarrow> rat \<Rightarrow> int" where
  "to_pcm rnd sample = max (min (py_int (rnd (rnd (sample * 128) + 128))) 255) 0"

text \<open>Lines 229 to 245, one output sample. The conversion of the sum to PCM is the
  parameter \<open>pcm\<close>, so that the conversion of the source (\<open>to_pcm\<close>) can be compared with
  another one; \<open>render\<close> below fixes it to \<open>to_pcm\<close>.\<close>

definition mix_sample ::
  "(rat \<Rightarrow> int) \<Rightarrow> (rat \<Rightarrow> rat) \<Rightarrow> s3m_parser \<Rightarrow> channel_state list
     \<Rightarrow> py_error + (int \<times> channel_state list)" where
  "mix_sample pcm rnd parser channel_states =
     (case mix_channels rnd channel_states [0..<channels parser] 0 of
        Inl e \<Rightarrow> Inl e
      | Inr (sample, channel_states') \<Rightarrow> Inr (pcm sample, channel_states'))"

subsection \<open>render\<close>

text \<open>Line 228: \<^verbatim>\<open>for _ in range(n)\<close>; the samples appended to \<^verbatim>\<open>output\<close>, in order, and the
  channel states after the loop.\<close>

fun render_samples ::
  "(rat \<Rightarrow> int) \<Rightarrow> (rat \<Rightarrow> rat) \<Rightarrow> s3m_parser \<Rightarrow> nat \<Rightarrow> channel_state list
     \<Rightarrow> py_error + (int list \<times> channel_state list)" where
  "render_samples pcm rnd parser 0 channel_states = Inr ([], channel_states)"
| "render_samples pcm rnd parser (Suc n) channel_states =
     (case mix_sample pcm rnd parser channel_states of
        Inl e \<Rightarrow> Inl e
      | Inr (s, channel_states') \<Rightarrow>
          (case render_samples pcm rnd parser n channel_states' of
             Inl e \<Rightarrow> Inl e
           | Inr (out, channel_states'') \<Rightarrow> Inr (s # out, channel_states'')))"

text \<open>Line 208: \<^verbatim>\<open>for row_idx, row in enumerate(pattern)\<close>; \<open>n\<close> is
  \<^verbatim>\<open>ticks_per_row * samples_per_tick\<close>.\<close>

fun render_rows ::
  "(rat \<Rightarrow> int) \<Rightarrow> (rat \<Rightarrow> rat) \<Rightarrow> s3m_parser \<Rightarrow> nat \<Rightarrow> channel_state list \<Rightarrow> pattern
     \<Rightarrow> py_error + (int list \<times> channel_state list)" where
  "render_rows pcm rnd parser n channel_states [] = Inr ([], channel_states)"
| "render_rows pcm rnd parser n channel_states (row # rows) =
     (case process_row rnd parser channel_states 0 row of
        Inl e \<Rightarrow> Inl e
      | Inr cs1 \<Rightarrow>
          (case render_samples pcm rnd parser n cs1 of
             Inl e \<Rightarrow> Inl e
           | Inr (out1, cs2) \<Rightarrow>
               (case render_rows pcm rnd parser n cs2 rows of
                  Inl e \<Rightarrow> Inl e
                | Inr (out2, cs3) \<Rightarrow> Inr (out1 @ out2, cs3))))"

text \<open>Line 202: \<^verbatim>\<open>for order_idx, order in enumerate(self.parser.orders)\<close>.\<close>

fun render_orders ::
  "(rat \<Rightarrow> int) \<Rightarrow> (rat \<Rightarrow> rat) \<Rightarrow> s3m_parser \<Rightarrow> nat \<Rightarrow> channel_state list \<Rightarrow> byte list
     \<Rightarrow> py_error + (int list \<times> channel_state list)" where
  "render_orders pcm rnd parser n channel_states [] = Inr ([], channel_states)"
| "render_orders pcm rnd parser n channel_states (order # os) =
     (if unat order \<ge> length (patterns parser)
      then render_orders pcm rnd parser n channel_states os
      else
        (case render_rows pcm rnd parser n channel_states (patterns parser ! unat order) of
           Inl e \<Rightarrow> Inl e
         | Inr (out1, cs1) \<Rightarrow>
             (case render_orders pcm rnd parser n cs1 os of
                Inl e \<Rightarrow> Inl e
              | Inr (out2, cs2) \<Rightarrow> Inr (out1 @ out2, cs2))))"

text \<open>Line 247: \<^verbatim>\<open>bytes(output)\<close> raises \<^verbatim>\<open>ValueError\<close> unless every element is in
  \<^verbatim>\<open>range(256)\<close>.\<close>

definition py_bytes :: "int list \<Rightarrow> py_error + byte list" where
  "py_bytes xs =
     (if list_all (\<lambda>x. 0 \<le> x \<and> x < 256) xs then Inr (map word_of_int xs) else Inl ValueError)"

text \<open>Lines 195 to 247 on a fresh renderer. \<^verbatim>\<open>tempo * 4 // 60\<close> is the divisor of line 199,
  and \<^verbatim>\<open>//\<close> by 0 raises \<^verbatim>\<open>ZeroDivisionError\<close>.\<close>

definition render_with ::
  "(rat \<Rightarrow> int) \<Rightarrow> (rat \<Rightarrow> rat) \<Rightarrow> s3m_parser \<Rightarrow> py_error + byte list" where
  "render_with pcm rnd parser =
     (let ticks_per_row = speed parser in
      if tempo parser * 4 div 60 = 0 then Inl ZeroDivisionError
      else
        let samples_per_tick = sample_rate parser div (tempo parser * 4 div 60) in
        case render_orders pcm rnd parser (ticks_per_row * samples_per_tick)
               (init_channel_states parser) (orders parser) of
          Inl e \<Rightarrow> Inl e
        | Inr (output, channel_states) \<Rightarrow> py_bytes output)"

definition render :: "(rat \<Rightarrow> rat) \<Rightarrow> s3m_parser \<Rightarrow> py_error + byte list" where
  "render rnd parser = render_with (to_pcm rnd) rnd parser"

section \<open>The fatal conditions, in the words of the specification\<close>

text \<open>The specification lists when \<open>parse\<close> fails: the buffer is smaller than the 96-byte
  header, the count fields at offset 28 cannot be decoded, or the order list, the
  instrument pointer table or the pattern pointer table would read past the end of the
  buffer. The source raises \<^verbatim>\<open>Exception\<close> where the specification says \<open>FormatError\<close>.\<close>

definition spec_fatal :: "byte list \<Rightarrow> bool" where
  "spec_fatal data =
     (length data < 96
      \<or> (case header_counts data of
            None \<Rightarrow> True
          | Some (n_orders, n_instruments, n_patterns) \<Rightarrow>
              length data < 96 + n_orders
              \<or> length data < 96 + n_orders + 2 * n_instruments
              \<or> length data < 96 + n_orders + 2 * n_instruments + 2 * n_patterns))"

section \<open>The number of orders that are played\<close>

text \<open>The order entries whose pattern index is below the number of parsed patterns: the
  ones line 203 does not skip.\<close>

definition valid_orders :: "s3m_parser \<Rightarrow> nat" where
  "valid_orders parser =
     length (filter (\<lambda>order. unat order < length (patterns parser)) (orders parser))"

section \<open>Notes and rounding\<close>




section \<open>The conversion to PCM, in the words of the specification\<close>

text \<open>The specification converts the summed signal with
  \<open>clamp(round(sum * 128 + 128), 0, 255)\<close>, in exact arithmetic; \<open>round\<close> is rounding to the
  nearest integer. The source truncates instead (\<open>to_pcm\<close>, with \<^verbatim>\<open>int\<close>).\<close>

definition to_pcm_spec :: "rat \<Rightarrow> int" where
  "to_pcm_spec mixed = max 0 (min 255 (round (mixed * 128 + 128)))"

text \<open>What is needed of the floating-point arithmetic where the two conversions are
  compared: an operation whose exact result is \<open>k / 64\<close> for an integer \<open>k\<close> of at most 40
  bits returns that result. Binary64 has 53 bits of mantissa and represents every such
  number, so its operations, which round the exact result to the nearest representable
  number, satisfy this; so does \<open>exact\<close>.\<close>

definition float_exact :: "(rat \<Rightarrow> rat) \<Rightarrow> bool" where
  "float_exact rnd = (\<forall>k::int. \<bar>k\<bar> \<le> 2 ^ 40 \<longrightarrow> rnd (of_int k / 64) = of_int k / 64)"

text \<open>The invariants of the mixer: a volume is \<open>k / 64\<close> for a byte \<open>k\<close> (the parser and
  \<open>process_event\<close> divide a byte by 64), and the running sum after \<open>j\<close> channels is \<open>k / 64\<close>
  for an integer \<open>k\<close> of absolute value at most \<open>32640 * j\<close> (each channel adds a sample
  in \<open>-128..127\<close> times a volume).\<close>

definition vol_ok :: "rat \<Rightarrow> bool" where
  "vol_ok v = (\<exists>k::nat. k \<le> 255 \<and> v = of_nat k / 64)"

definition sum_ok :: "nat \<Rightarrow> rat \<Rightarrow> bool" where
  "sum_ok j s = (\<exists>k::int. \<bar>k\<bar> \<le> 32640 * int j \<and> s = of_int k / 64)"

definition chans_ok :: "channel_state list \<Rightarrow> bool" where
  "chans_ok cs = (\<forall>c\<in>set cs. vol_ok (c_volume c))"

definition insts_ok :: "s3m_parser \<Rightarrow> bool" where
  "insts_ok parser = (\<forall>i\<in>set (instruments parser). vol_ok (i_volume i))"

section \<open>Concrete inputs\<close>

text \<open>The smallest file \<open>read_s3m\<close> accepts: a header of 96 zero bytes, with no orders,
  instruments or patterns, and the parser object it gives.\<close>

definition blank_file :: "byte list" where
  "blank_file = replicate 96 0"

definition blank_parser :: s3m_parser where
  "blank_parser =
     \<lparr>title = [], orders = [], instruments = [], patterns = [],
      num_orders = 0, num_instruments = 0, num_patterns = 0,
      sample_rate = 44100, channels = 32, tempo = 125, speed = 6\<rparr>"

text \<open>A header that announces three orders, in a file that ends after two.\<close>

definition short_order_list_file :: "byte list" where
  "short_order_list_file = replicate 28 0 @ [3, 0, 0, 0, 0, 0] @ replicate 62 0 @ [0, 0]"

text \<open>A file with one order, one instrument and one pattern. The instrument record (at
  paragraph 7, offset 112) has type 1, a sample of length 0 and the loop bounds 0 and 1.
  The pattern (at paragraph 9, offset 144) has a packed stream of 4 bytes: in row 0 the
  note \<open>0x40\<close> with instrument 1 on channel 0, then the end of the row.\<close>

definition looped_empty_sample_file :: "byte list" where
  "looped_empty_sample_file =
     replicate 28 0 @ [1, 0, 1, 0, 1, 0] @ replicate 62 0
     @ [0] @ [7, 0] @ [9, 0] @ replicate 11 0
     @ [1] @ replicate 12 0 @ [0, 0, 0, 0, 0, 0, 0, 0, 1, 0, 64] @ replicate 8 0
     @ [4, 0, 0x20, 0x40, 0x01, 0x00]"

definition looped_empty_instrument :: "(rat \<Rightarrow> rat) \<Rightarrow> instrument" where
  "looped_empty_instrument rnd =
     \<lparr>i_name = [], i_sample = [], i_length = 0, i_loop_begin = 0, i_loop_end = 1,
      i_volume = rnd 1\<rparr>"

definition c4_note_event :: event where
  "c4_note_event =
     \<lparr>e_note = Some 0x40, e_instrument = Some 1, e_volume = None, e_effect = None\<rparr>"

definition looped_empty_parser :: "(rat \<Rightarrow> rat) \<Rightarrow> s3m_parser" where
  "looped_empty_parser rnd =
     blank_parser\<lparr>orders := [0],
       instruments := [looped_empty_instrument rnd],
       patterns := [decode_rows 32 [0x20, 0x40, 0x01, 0x00] 64 0],
       num_orders := 1, num_instruments := 1, num_patterns := 1\<rparr>"

text \<open>A file with one pattern (at paragraph 7, offset 112) whose packed stream is the two
  bytes \<open>0x20 0x01\<close>: a note and an instrument are announced for channel 0, and the stream
  ends one byte later.\<close>

definition truncated_pattern_file :: "byte list" where
  "truncated_pattern_file =
     replicate 28 0 @ [0, 0, 0, 0, 1, 0] @ replicate 62 0
     @ [7, 0] @ replicate 14 0
     @ [2, 0, 0x20, 0x01]"

definition empty_event :: event where
  "empty_event = \<lparr>e_note = None, e_instrument = None, e_volume = None, e_effect = None\<rparr>"

definition truncated_pattern_parser :: s3m_parser where
  "truncated_pattern_parser =
     blank_parser\<lparr>patterns := [decode_rows 32 [0x20, 0x01] 64 0], num_patterns := 1\<rparr>"






text \<open>A file with the orders 0 and 5 and one pattern (at paragraph 7, offset 112) whose
  packed stream is empty: 64 rows without events. Order 5 names no pattern.\<close>

definition silent_file :: "byte list" where
  "silent_file =
     replicate 28 0 @ [2, 0, 0, 0, 1, 0] @ replicate 62 0
     @ [0, 5] @ [7, 0] @ replicate 12 0
     @ [0, 0]"

definition silent_parser :: s3m_parser where
  "silent_parser =
     blank_parser\<lparr>orders := [0, 5], patterns := [replicate 64 (replicate 32 None)],
       num_orders := 2, num_patterns := 1\<rparr>"

text \<open>A channel in the middle of a note, a key-off event, and an event with a note but no
  instrument.\<close>

definition sounding_state :: channel_state where
  "sounding_state =
     \<lparr>sample_pos = 3, increment = 1 / 2, c_volume = 1, playing = True, c_instrument = None\<rparr>"

definition key_off_event :: event where
  "key_off_event =
     \<lparr>e_note = Some 254, e_instrument = Some 1, e_volume = Some 64, e_effect = None\<rparr>"

definition bare_note_event :: event where
  "bare_note_event =
     \<lparr>e_note = Some 0x40, e_instrument = Some 0, e_volume = Some 64, e_effect = None\<rparr>"

section \<open>The sample bytes (C8)\<close>

lemma int_and_255: "(k::int) AND 0xFF = k mod 256"
proof -
  have "(0xFF::int) = mask 8" by (simp add: mask_eq_exp_minus_1)
  then show ?thesis by (simp only: flip: take_bit_eq_mask) (simp add: take_bit_eq_mod)
qed

lemma to_unsigned_add: "to_unsigned b = b + 128"
proof -
  have "to_unsigned b = word_of_int ((uint b + 128) mod 256)"
    by (simp only: to_unsigned_def int_and_255)
  also have "\<dots> = word_of_int (uint b + 128)"
    unfolding word_of_int_eq_iff by (simp add: take_bit_eq_mod)
  also have "\<dots> = b + 128"
    by simp
  finally show ?thesis .
qed

text \<open>
  C8. For each of the 256 bytes \<open>b\<close> of a sample, the parser stores \<open>(b + 128) & 0xFF\<close>
  (\<open>to_unsigned\<close>, line 96) and the mixer reads the stored byte minus 128 (\<open>recenter\<close>,
  line 242): the result is the signed 8-bit value \<open>sint b\<close> that \<open>b\<close> encodes.
\<close>

theorem sample_round_trip: "recenter (to_unsigned b) = sint b"
proof -
  have "sint b = (uint b + 128) mod 256 - 128"
    using int_word_sint [of "uint b", where ?'a = 8] by simp
  moreover have "int (unat (b + 128)) = (uint b + 128) mod 256"
    by (simp add: uint_word_ariths)
  ultimately show ?thesis
    by (simp add: recenter_def to_unsigned_add)
qed

section \<open>Events that do not trigger (C9, C10)\<close>

text \<open>
  C9. An event whose note is the key-off sentinel 254, in the slot of an existing channel
  \<open>ch\<close>, is processed without error; afterwards channel \<open>ch\<close> is not playing, its position,
  increment, volume and instrument are what they were, and every other channel state is
  what it was.
\<close>

theorem key_off_only_stops_channel:
  assumes "e_note ev = Some 254" and "ch < length channel_states"
  shows "\<exists>cs'. process_event rnd parser channel_states ch (Some ev) = Inr cs'
           \<and> length cs' = length channel_states
           \<and> playing (cs' ! ch) = False
           \<and> sample_pos (cs' ! ch) = sample_pos (channel_states ! ch)
           \<and> increment (cs' ! ch) = increment (channel_states ! ch)
           \<and> c_volume (cs' ! ch) = c_volume (channel_states ! ch)
           \<and> c_instrument (cs' ! ch) = c_instrument (channel_states ! ch)
           \<and> (\<forall>j. j \<noteq> ch \<longrightarrow> cs' ! j = channel_states ! j)"
  using assms by (simp add: process_event_def)

theorem key_off_only_stops_channel_witness:
  "e_note key_off_event = Some 254
   \<and> (1::nat) < length [sounding_state, sounding_state, sounding_state]
   \<and> (\<exists>cs'. process_event exact blank_parser
                [sounding_state, sounding_state, sounding_state] 1 (Some key_off_event) = Inr cs'
          \<and> playing (cs' ! 1) = False
          \<and> sample_pos (cs' ! 1) = 3
          \<and> cs' ! 0 = sounding_state \<and> cs' ! 2 = sounding_state)"
proof -
  let ?cs = "[sounding_state, sounding_state, sounding_state]"
  have h1: "e_note key_off_event = Some 254"
    by (simp add: key_off_event_def)
  have h2: "(1::nat) < length ?cs"
    by simp
  from key_off_only_stops_channel [OF h1 h2, of exact blank_parser]
  obtain cs' where run: "process_event exact blank_parser ?cs 1 (Some key_off_event) = Inr cs'"
    and stopped: "playing (cs' ! 1) = False"
    and pos: "sample_pos (cs' ! 1) = sample_pos (?cs ! 1)"
    and others: "\<forall>j. j \<noteq> 1 \<longrightarrow> cs' ! j = ?cs ! j"
    by blast
  from pos have "sample_pos (cs' ! 1) = 3"
    by (simp add: sounding_state_def)
  moreover from others have "cs' ! 0 = sounding_state" "cs' ! 2 = sounding_state"
    by simp_all
  ultimately show ?thesis
    using h1 h2 run stopped by blast
qed

text \<open>
  C10. An event with a note other than 254 whose instrument byte is absent or 0, or whose
  0-based instrument index (the byte minus 1) is not below the number of parsed
  instruments, leaves every channel state as it was and raises nothing.
\<close>

theorem untriggered_event_keeps_state:
  assumes nt: "e_note ev = Some n" "n \<noteq> 254"
    and inst: "e_instrument ev = None \<or> e_instrument ev = Some 0
         \<or> (\<exists>k. e_instrument ev = Some k
                \<and> int (length (instruments parser)) \<le> int (unat k) - 1)"
  shows "process_event rnd parser channel_states ch (Some ev) = Inr channel_states"
proof (cases "e_instrument ev")
  case None
  with nt show ?thesis by (simp add: process_event_def)
next
  case (Some k)
  show ?thesis
  proof (cases "k = 0")
    case True
    with nt Some show ?thesis by (simp add: process_event_def)
  next
    case False
    with inst Some have "int (length (instruments parser)) \<le> int (unat k) - 1" by simp
    then have "\<not> unat k - 1 < length (instruments parser)" by linarith
    with nt Some False show ?thesis by (simp add: process_event_def)
  qed
qed

theorem untriggered_event_keeps_state_witness:
  "e_note bare_note_event = Some 0x40 \<and> (0x40::byte) \<noteq> 254
   \<and> e_instrument bare_note_event = Some 0
   \<and> process_event exact blank_parser [sounding_state] 0 (Some bare_note_event)
       = Inr [sounding_state]"
  using untriggered_event_keeps_state
          [of bare_note_event "0x40" blank_parser exact "[sounding_state]" 0]
  by (simp add: bare_note_event_def)

section \<open>When parsing fails (C4)\<close>

lemma length_slice: "length (slice xs a b) = min (b - a) (length xs - a)"
  by (simp add: slice_def)

lemma header_counts_Some:
  "34 \<le> length data \<Longrightarrow> \<exists>c. header_counts data = Some c"
  by (simp add: header_counts_def unpack_HHH_def length_slice)

lemma flags_Some:
  "40 \<le> length data \<Longrightarrow> \<exists>flags. unpack_H (slice data 38 40) = Some flags"
  by (simp add: unpack_H_def length_slice)

lemma inst_ptrs_of_Some:
  "header_counts data = Some (n_orders, n_instruments, n_patterns) \<Longrightarrow>
   96 + n_orders + 2 * n_instruments \<le> length data \<Longrightarrow>
   \<exists>ptrs. inst_ptrs_of data = Some ptrs"
  by (simp add: inst_ptrs_of_def unpack_nH_def length_slice)

lemma pattern_ptrs_of_Some:
  "header_counts data = Some (n_orders, n_instruments, n_patterns) \<Longrightarrow>
   96 + n_orders + 2 * n_instruments + 2 * n_patterns \<le> length data \<Longrightarrow>
   \<exists>ptrs. pattern_ptrs_of data = Some ptrs"
  by (simp add: pattern_ptrs_of_def unpack_nH_def length_slice)

text \<open>
  C4. \<open>read_s3m\<close> raises its \<^verbatim>\<open>Exception\<close> exactly when one of the fatal conditions of the
  specification holds, and returns a parser object for every other buffer: no other
  exception escapes, whatever the instrument and pattern pointers point at.
\<close>

theorem read_s3m_fails_iff_fatal:
  "(spec_fatal data \<longrightarrow> (\<exists>msg. read_s3m rnd data = Inl (Exception msg)))
   \<and> (\<not> spec_fatal data \<longrightarrow> (\<exists>parser. read_s3m rnd data = Inr parser))"
proof (cases "length data < 96")
  case True
  then show ?thesis by (simp add: spec_fatal_def read_s3m_def)
next
  case long: False
  then obtain n_orders n_instruments n_patterns
    where counts: "header_counts data = Some (n_orders, n_instruments, n_patterns)"
    using header_counts_Some [of data] by (cases "header_counts data") auto
  from long obtain flags where flags: "unpack_H (slice data 38 40) = Some flags"
    using flags_Some [of data] by auto
  show ?thesis
  proof (cases "length data < 96 + n_orders + 2 * n_instruments + 2 * n_patterns")
    case True
    with long counts flags show ?thesis
      by (auto simp: spec_fatal_def read_s3m_def)
  next
    case False
    with counts obtain iptrs pptrs
      where "inst_ptrs_of data = Some iptrs" "pattern_ptrs_of data = Some pptrs"
      using inst_ptrs_of_Some [of data] pattern_ptrs_of_Some [of data] by fastforce
    with False long counts flags show ?thesis
      by (auto simp: spec_fatal_def read_s3m_def)
  qed
qed

lemma read_blank_file: "read_s3m rnd blank_file = Inr blank_parser"
  by (simp add: read_s3m_def blank_file_def blank_parser_def header_counts_def
      inst_ptrs_of_def pattern_ptrs_of_def slice_def unpack_HHH_def unpack_H_def
      unpack_nH_def le16_def decode_ascii_def rstrip_nul_def char_of_def)

theorem read_s3m_fails_iff_fatal_witness:
  "spec_fatal short_order_list_file
   \<and> (\<exists>msg. read_s3m exact short_order_list_file = Inl (Exception msg))
   \<and> \<not> spec_fatal blank_file
   \<and> (\<exists>parser. read_s3m exact blank_file = Inr parser)"
proof -
  have a: "spec_fatal short_order_list_file"
    by (simp add: spec_fatal_def short_order_list_file_def header_counts_def slice_def
        unpack_HHH_def le16_def)
  have b: "\<not> spec_fatal blank_file"
    by (simp add: spec_fatal_def blank_file_def header_counts_def slice_def
        unpack_HHH_def le16_def)
  from a b read_s3m_fails_iff_fatal [of short_order_list_file exact]
    read_s3m_fails_iff_fatal [of blank_file exact]
  show ?thesis by blast
qed


section \<open>Evaluating the parser on concrete files\<close>

lemmas file_eval =
  read_s3m_def header_counts_def inst_ptrs_of_def pattern_ptrs_of_def slice_def
  unpack_H_def unpack_HHH_def unpack_LHHHB_def unpack_nH_def le16_def le32_def
  decode_ascii_def rstrip_nul_def char_of_def parse_instrument_def parse_pattern_def
  to_unsigned_def Let_def nth_append

lemma decode_row_past_end: "length pd \<le> i \<Longrightarrow> decode_row pd i row = (i, row)"
  by (simp add: decode_row.simps)

lemma decode_rows_past_end:
  "length pd \<le> i \<Longrightarrow> decode_rows nchan pd n i = replicate n (replicate nchan None)"
  by (induction n) (simp_all add: decode_row_past_end)

lemma decode_one_note:
  "decode_rows 32 [0x20, 0x40, 0x01, 0x00] (Suc n) 0
   = (replicate 32 None)[0 := Some c4_note_event] # replicate n (replicate 32 None)"
  by (simp add: decode_row.simps decode_event_def Let_def decode_rows_past_end c4_note_event_def)

lemma decode_truncated_stream:
  "decode_rows 32 [0x20, 0x01] (Suc (Suc n)) 0
   = replicate 32 None # (replicate 32 None)[1 := Some empty_event]
       # replicate n (replicate 32 None)"
  by (simp add: decode_row.simps decode_event_def Let_def decode_rows_past_end empty_event_def)

lemma read_looped_empty_sample_file:
  "read_s3m rnd looped_empty_sample_file = Inr (looped_empty_parser rnd)"
  by (simp add: file_eval looped_empty_sample_file_def blank_parser_def
      looped_empty_instrument_def looped_empty_parser_def)

lemma read_truncated_pattern_file:
  "read_s3m rnd truncated_pattern_file = Inr truncated_pattern_parser"
  by (simp add: file_eval truncated_pattern_file_def blank_parser_def
      truncated_pattern_parser_def)

section \<open>A truncated packed stream (C6)\<close>

text \<open>
  C6, evaluated on \<open>truncated_pattern_file\<close>. The file parses. In row 0 the read of the note
  and the instrument would pass the end of the stream, and the \<^verbatim>\<open>break\<close> of line 146 leaves
  the \<^verbatim>\<open>while\<close> loop of row 0 only: row 1 goes on decoding at the byte \<open>0x01\<close> that the
  event of row 0 had announced as its note, reads it as the byte \<open>what\<close> of an event on
  channel 1, and stores an event with no fields there. The row after the truncation is
  not empty.
\<close>

theorem truncated_stream_decodes_next_row:
  "read_s3m rnd truncated_pattern_file = Inr truncated_pattern_parser
   \<and> length (patterns truncated_pattern_parser) = 1
   \<and> patterns truncated_pattern_parser ! 0 ! 0 = replicate 32 None
   \<and> patterns truncated_pattern_parser ! 0 ! 1 ! 1 = Some empty_event"
proof -
  have "patterns truncated_pattern_parser ! 0
      = replicate 32 None # (replicate 32 None)[1 := Some empty_event]
          # replicate 62 (replicate 32 None)"
    using decode_truncated_stream [of 62] by (simp add: truncated_pattern_parser_def)
  then show ?thesis
    by (simp add: read_truncated_pattern_file truncated_pattern_parser_def empty_event_def)
qed

section \<open>A loop beyond the end of the sample (C1)\<close>

lemma process_row_no_events:
  "process_row rnd parser cs ch (replicate k None) = Inr cs"
  by (induction k arbitrary: ch) (simp_all add: process_event_def)

lemma mix_channels_raises:
  "mix_channel rnd cs ch s = Inl e \<Longrightarrow> mix_channels rnd cs (ch # chs) s = Inl e"
  by simp

lemma render_samples_raises:
  "mix_sample pcm rnd parser cs = Inl e \<Longrightarrow> 0 < n
   \<Longrightarrow> render_samples pcm rnd parser n cs = Inl e"
  by (cases n) simp_all

text \<open>
  C1, evaluated on \<open>looped_empty_sample_file\<close>, for every rounding \<open>rnd\<close>. The file parses:
  nothing in \<open>read_s3m\<close> compares the loop bounds with the length of the sample. Row 0
  starts the instrument on channel 0 at position 0. For the first output sample the
  position 0 is not below the length 0, the instrument has a loop (\<open>1 > 0\<close>), the wrapped
  position is \<open>0 + (0 - 1) mod (1 - 0) = 0\<close>, and line 242 indexes the empty sample buffer
  at 0: \<open>render\<close> raises \<^verbatim>\<open>IndexError\<close>.
\<close>

theorem render_raises_on_looped_empty_sample:
  "read_s3m rnd looped_empty_sample_file = Inr (looped_empty_parser rnd)
   \<and> render rnd (looped_empty_parser rnd) = Inl IndexError"
proof -
  define parser where "parser = looped_empty_parser rnd"
  define cs where "cs = (init_channel_states parser)[0 :=
      \<lparr>sample_pos = 0,
       increment = rnd (note_to_freq rnd (Some 0x40) 8363 / 44100),
       c_volume = rnd 1, playing = True,
       c_instrument = Some (looped_empty_instrument rnd)\<rparr>]"
  note parser_eval = parser_def looped_empty_parser_def blank_parser_def
  have pat: "patterns parser ! 0
      = (replicate 32 None)[0 := Some c4_note_event] # replicate 63 (replicate 32 None)"
    using decode_one_note [of 63] by (simp add: parser_eval)
  have row: "(replicate 32 None)[0 := Some c4_note_event]
      = Some c4_note_event # replicate 31 None"
    by (simp add: numeral_eq_Suc)
  have trig: "process_row rnd parser (init_channel_states parser) 0
      ((replicate 32 None)[0 := Some c4_note_event]) = Inr cs"
    unfolding row
    by (simp add: process_row_no_events process_event_def c4_note_event_def cs_def
        parser_eval init_channel_states_def looped_empty_instrument_def)
  have "mix_channel rnd cs 0 0 = Inl IndexError"
    by (simp add: mix_channel_def cs_def parser_eval init_channel_states_def
        looped_empty_instrument_def py_int_def add_sample_def py_index_def)
  then have "mix_channels rnd cs [0..<channels parser] 0 = Inl IndexError"
    by (simp add: parser_eval upt_conv_Cons)
  then have "mix_sample (to_pcm rnd) rnd parser cs = Inl IndexError"
    by (simp add: mix_sample_def)
  then have "render_samples (to_pcm rnd) rnd parser 33072 cs = Inl IndexError"
    by (rule render_samples_raises) simp
  with trig pat have "render_rows (to_pcm rnd) rnd parser 33072 (init_channel_states parser)
      (patterns parser ! 0) = Inl IndexError"
    by simp
  then have "render_orders (to_pcm rnd) rnd parser 33072 (init_channel_states parser)
      (orders parser) = Inl IndexError"
    by (simp add: parser_eval)
  moreover have "tempo parser * 4 div 60 \<noteq> 0"
       "speed parser * (sample_rate parser div (tempo parser * 4 div 60)) = 33072"
    by (simp_all add: parser_eval)
  ultimately have "render rnd parser = Inl IndexError"
    by (simp add: render_def render_with_def)
  then show ?thesis
    by (simp add: read_looped_empty_sample_file parser_def)
qed

section \<open>Which instrument an event starts (C3)\<close>












section \<open>The length of the output (C5)\<close>

lemma read_silent_file: "read_s3m rnd silent_file = Inr silent_parser"
  by (simp add: file_eval silent_file_def blank_parser_def silent_parser_def
      decode_rows_past_end)

lemma length_decode_rows: "length (decode_rows nchan pd n i) = n"
  by (induction n arbitrary: i) (simp_all split: prod.splits)

lemma parse_pattern_rows: "parse_pattern nchan data ptr = Some rows \<Longrightarrow> length rows = 64"
  by (auto simp: parse_pattern_def Let_def length_decode_rows split: if_splits option.splits)

lemma parse_patterns_rows:
  "p \<in> set (parse_patterns nchan data ptrs) \<Longrightarrow> length p = 64"
  by (induction ptrs) (auto split: option.splits dest: parse_pattern_rows)

lemma read_s3m_patterns:
  "read_s3m rnd data = Inr parser \<Longrightarrow> p \<in> set (patterns parser) \<Longrightarrow> length p = 64"
proof -
  assume "read_s3m rnd data = Inr parser" and p: "p \<in> set (patterns parser)"
  then obtain ptrs where "patterns parser = parse_patterns 32 data ptrs"
    by (auto simp: read_s3m_def Let_def split: if_splits option.splits)
  with p show ?thesis by (simp add: parse_patterns_rows)
qed

lemma length_render_samples:
  "render_samples pcm rnd parser n cs = Inr (out, cs') \<Longrightarrow> length out = n"
  by (induction n arbitrary: cs out cs') (auto split: sum.splits)

lemma length_render_rows:
  "render_rows pcm rnd parser n cs rows = Inr (out, cs') \<Longrightarrow> length out = length rows * n"
proof (induction rows arbitrary: cs out cs')
  case Nil
  then show ?case by simp
next
  case (Cons row rows)
  then obtain cs1 out1 cs2 out2 where
    samples: "render_samples pcm rnd parser n cs1 = Inr (out1, cs2)"
    and rest: "render_rows pcm rnd parser n cs2 rows = Inr (out2, cs')"
    and out: "out = out1 @ out2"
    by (auto split: sum.splits)
  from length_render_samples [OF samples] Cons.IH [OF rest] out
  show ?case by simp
qed

lemma length_render_orders:
  assumes "\<forall>p\<in>set (patterns parser). length p = 64"
  shows "render_orders pcm rnd parser n cs os = Inr (out, cs') \<Longrightarrow>
    length out = length (filter (\<lambda>order. unat order < length (patterns parser)) os) * 64 * n"
proof (induction os arbitrary: cs out cs')
  case Nil
  then show ?case by simp
next
  case (Cons order os)
  show ?case
  proof (cases "unat order < length (patterns parser)")
    case False
    with Cons show ?thesis by simp
  next
    case True
    with Cons.prems obtain out1 cs1 out2 where
      rows: "render_rows pcm rnd parser n cs (patterns parser ! unat order) = Inr (out1, cs1)"
      and rest: "render_orders pcm rnd parser n cs1 os = Inr (out2, cs')"
      and out: "out = out1 @ out2"
      by (auto split: sum.splits)
    from True assms have "length (patterns parser ! unat order) = 64" by simp
    with length_render_rows [OF rows] have "length out1 = 64 * n" by simp
    with Cons.IH [OF rest] out True show ?thesis by (simp add: algebra_simps)
  qed
qed

lemma length_py_bytes: "py_bytes xs = Inr bs \<Longrightarrow> length bs = length xs"
  by (auto simp: py_bytes_def split: if_splits)

text \<open>
  C5. For a parsed module, an output that \<open>render\<close> returns has \<open>N * 64 * speed *
  (sample_rate div (tempo * 4 div 60))\<close> samples, where \<open>N\<close> is \<open>valid_orders\<close>: an order whose
  pattern index is out of range adds nothing. (\<open>render\<close> returns unless the read of a
  sample byte raises.) For \<open>silent_file\<close>, whose two orders give \<open>N = 1\<close>, the output has
  2116608 samples.
\<close>

theorem render_length:
  assumes "read_s3m rnd data = Inr parser" and "render rnd parser = Inr out"
  shows "length out
         = valid_orders parser * 64 * speed parser
             * (sample_rate parser div (tempo parser * 4 div 60))"
proof -
  from assms(2) obtain outp cs where
    run: "render_orders (to_pcm rnd) rnd parser
            (speed parser * (sample_rate parser div (tempo parser * 4 div 60)))
            (init_channel_states parser) (orders parser) = Inr (outp, cs)"
    and bytes: "py_bytes outp = Inr out"
    by (auto simp: render_def render_with_def Let_def split: if_splits sum.splits)
  have "\<forall>p\<in>set (patterns parser). length p = 64"
    using read_s3m_patterns [OF assms(1)] by blast
  from length_render_orders [OF this run] length_py_bytes [OF bytes]
  show ?thesis by (simp add: valid_orders_def)
qed

lemma mix_channel_idle:
  "ch < length cs \<Longrightarrow> \<not> playing (cs ! ch) \<Longrightarrow> mix_channel rnd cs ch s = Inr (s, cs)"
  by (simp add: mix_channel_def)

lemma mix_channels_idle:
  "\<forall>ch\<in>set chs. ch < length cs \<and> \<not> playing (cs ! ch)
   \<Longrightarrow> mix_channels rnd cs chs s = Inr (s, cs)"
  by (induction chs) (simp_all add: mix_channel_idle)

lemma mix_sample_idle:
  "channels parser \<le> length cs \<Longrightarrow> \<forall>c\<in>set cs. \<not> playing c
   \<Longrightarrow> mix_sample pcm rnd parser cs = Inr (pcm 0, cs)"
  by (simp add: mix_sample_def mix_channels_idle)

lemma render_samples_idle:
  "channels parser \<le> length cs \<Longrightarrow> \<forall>c\<in>set cs. \<not> playing c
   \<Longrightarrow> render_samples pcm rnd parser n cs = Inr (replicate n (pcm 0), cs)"
  by (induction n) (simp_all add: mix_sample_idle)

lemma render_rows_idle:
  "channels parser \<le> length cs \<Longrightarrow> \<forall>c\<in>set cs. \<not> playing c
   \<Longrightarrow> render_rows pcm rnd parser n cs (replicate m (replicate k None))
       = Inr (replicate (m * n) (pcm 0), cs)"
  by (induction m)
     (simp_all add: process_row_no_events render_samples_idle replicate_add)

lemma py_bytes_replicate:
  "0 \<le> x \<Longrightarrow> x < 256 \<Longrightarrow> py_bytes (replicate n x) = Inr (replicate n (word_of_int x))"
  by (simp add: py_bytes_def list_all_iff)

lemma render_silent: "render exact silent_parser = Inr (replicate 2116608 128)"
proof -
  let ?cs = "init_channel_states silent_parser"
  have fields: "orders silent_parser = [0, 5]"
    "patterns silent_parser = [replicate 64 (replicate 32 None)]"
    "speed silent_parser = 6" "tempo silent_parser = 125" "sample_rate silent_parser = 44100"
    "channels silent_parser = 32"
    by (simp_all add: silent_parser_def blank_parser_def)
  have idle: "channels silent_parser \<le> length ?cs" "\<forall>c\<in>set ?cs. \<not> playing c"
    by (simp_all add: init_channel_states_def)
  have rows: "render_rows (to_pcm exact) exact silent_parser 33072 ?cs
          (replicate 64 (replicate 32 None)) = Inr (replicate (64 * 33072) (to_pcm exact 0), ?cs)"
    by (rule render_rows_idle [OF idle])
  have pcm: "to_pcm exact 0 = 128"
    by (simp add: to_pcm_def exact_def py_int_def)
  have n: "speed silent_parser * (sample_rate silent_parser div (tempo silent_parser * 4 div 60))
      = 33072"
    by (simp add: fields)
  have "render_orders (to_pcm exact) exact silent_parser 33072 ?cs (orders silent_parser)
      = Inr (replicate 2116608 128, ?cs)"
    by (simp add: fields rows pcm)
  then show ?thesis
    unfolding render_def render_with_def Let_def n
    by (simp add: fields(4) py_bytes_replicate)
qed

theorem render_length_witness:
  "read_s3m exact silent_file = Inr silent_parser
   \<and> render exact silent_parser = Inr (replicate 2116608 128)
   \<and> valid_orders silent_parser = 1
   \<and> length (replicate 2116608 (128 :: byte)) = 1 * 64 * 6 * (44100 div (125 * 4 div 60))"
proof -
  have h1: "read_s3m exact silent_file = Inr silent_parser"
    by (rule read_silent_file)
  have h2: "render exact silent_parser = Inr (replicate 2116608 128)"
    by (rule render_silent)
  have n: "valid_orders silent_parser = 1"
    by (simp add: valid_orders_def silent_parser_def)
  from render_length [OF h1 h2] n
  have "length (replicate 2116608 (128 :: byte)) = 1 * 64 * 6 * (44100 div (125 * 4 div 60))"
    by (simp add: silent_parser_def blank_parser_def)
  with h1 h2 n show ?thesis by blast
qed


section \<open>note_to_freq is increasing (C7)\<close>

















section \<open>The conversion of the sum (C2)\<close>

lemma float_exactD:
  "float_exact rnd \<Longrightarrow> \<bar>k\<bar> \<le> 2 ^ 40 \<Longrightarrow> rnd (of_int k / 64) = of_int k / 64"
  by (simp add: float_exact_def)

lemma rnd_volume:
  assumes "float_exact rnd" "k \<le> 255"
  shows "rnd (of_nat k / 64) = of_nat k / 64" and "vol_ok (rnd (of_nat k / 64))"
proof -
  from assms(2) have "\<bar>int k\<bar> \<le> 2 ^ 40" by simp
  from float_exactD [OF assms(1) this]
  show "rnd (of_nat k / 64) = of_nat k / 64" by simp
  with assms(2) show "vol_ok (rnd (of_nat k / 64))"
    unfolding vol_ok_def by auto
qed

lemma byte_le_255: "unat (b :: byte) \<le> 255"
  using unsigned_less [of b, where ?'a = nat] by simp

lemma byte_volume_ok:
  assumes "float_exact rnd"
  shows "vol_ok (rnd (unsigned (b :: byte) / 64))"
  using rnd_volume(2) [OF assms byte_le_255 [of b]] by simp





lemma chans_ok_update:
  "chans_ok cs \<Longrightarrow> vol_ok (c_volume c) \<Longrightarrow> chans_ok (cs[ch := c])"
  by (auto simp: chans_ok_def dest: set_update_subset_insert [THEN subsetD])

lemma chans_ok_nth: "chans_ok cs \<Longrightarrow> ch < length cs \<Longrightarrow> vol_ok (c_volume (cs ! ch))"
  by (simp add: chans_ok_def)

lemma process_event_ok:
  assumes ok: "float_exact rnd" and insts: "insts_ok parser" and cs: "chans_ok cs"
    and run: "process_event rnd parser cs ch event = Inr cs'"
  shows "chans_ok cs'"
proof -
  have inst_vol: "vol_ok (i_volume (instruments parser ! idx))"
    if "idx < length (instruments parser)" for idx
    using insts that by (simp add: insts_ok_def)
  note ev_vol = byte_volume_ok [OF ok]
  from run cs show ?thesis
    by (auto simp: process_event_def Let_def chans_ok_nth inst_vol ev_vol
        split: option.splits if_splits intro!: chans_ok_update)
qed

lemma process_row_ok:
  "float_exact rnd \<Longrightarrow> insts_ok parser \<Longrightarrow> chans_ok cs
   \<Longrightarrow> process_row rnd parser cs ch row = Inr cs' \<Longrightarrow> chans_ok cs'"
  by (induction row arbitrary: cs ch) (auto split: sum.splits dest: process_event_ok)


lemma recenter_bound: "\<bar>recenter b\<bar> \<le> 128"
proof -
  have "0 \<le> uint b" "uint b < 256"
    using uint_lt2p [of b] by simp_all
  then show ?thesis
    by (simp add: recenter_def abs_le_iff)
qed

lemma contribution_ok:
  assumes ok: "float_exact rnd" and v: "vol_ok v"
  shows "\<exists>kc::int. \<bar>kc\<bar> \<le> 32640 \<and> rnd (of_int (recenter b) * v) = of_int kc / 64"
proof -
  from v obtain kv :: nat where kv: "kv \<le> 255" "v = of_nat kv / 64"
    by (auto simp: vol_ok_def)
  define kc where "kc = recenter b * int kv"
  have "\<bar>kc\<bar> = \<bar>recenter b\<bar> * int kv"
    by (simp add: kc_def abs_mult)
  also have "\<dots> \<le> 128 * 255"
    using recenter_bound [of b] kv(1) by (intro mult_mono) simp_all
  finally have bound: "\<bar>kc\<bar> \<le> 32640" by simp
  then have "\<bar>kc\<bar> \<le> 2 ^ 40" by simp
  from float_exactD [OF ok this]
  have "rnd (of_int (recenter b) * v) = of_int kc / 64"
    by (simp add: kv(2) kc_def)
  with bound show ?thesis by blast
qed

lemma sum_ok_mono: "sum_ok j s \<Longrightarrow> j \<le> j' \<Longrightarrow> sum_ok j' s"
proof -
  assume "sum_ok j s" and le: "j \<le> j'"
  then obtain k :: int where k: "\<bar>k\<bar> \<le> 32640 * int j" "s = of_int k / 64"
    by (auto simp: sum_ok_def)
  from le have "32640 * int j \<le> 32640 * int j'" by simp
  with k show ?thesis unfolding sum_ok_def by (intro exI [of _ k]) simp
qed

lemma add_contribution_ok:
  assumes ok: "float_exact rnd" and s: "sum_ok j s" and j: "j < 32"
    and kc: "\<bar>kc\<bar> \<le> 32640"
  shows "sum_ok (Suc j) (rnd (s + of_int kc / 64))"
proof -
  from s obtain k :: int where k: "\<bar>k\<bar> \<le> 32640 * int j" "s = of_int k / 64"
    by (auto simp: sum_ok_def)
  have bound: "\<bar>k + kc\<bar> \<le> 32640 * int (Suc j)"
    using k(1) kc by simp
  also have "\<dots> \<le> 32640 * 32"
    using j by simp
  finally have "\<bar>k + kc\<bar> \<le> 2 ^ 40" by simp
  from float_exactD [OF ok this]
  have "rnd (s + of_int kc / 64) = of_int (k + kc) / 64"
    by (simp add: k(2) add_divide_distrib)
  with bound show ?thesis
    unfolding sum_ok_def by blast
qed

lemma add_sample_ok:
  assumes ok: "float_exact rnd" and cs: "chans_ok cs" and ch: "ch < length cs"
    and s: "sum_ok j s" and j: "j < 32"
    and run: "add_sample rnd cs ch inst pos s = Inr (s', cs')"
  shows "sum_ok (Suc j) s'" and "chans_ok cs'" and "length cs' = length cs"
proof -
  from run obtain b where
    s': "s' = rnd (s + rnd (of_int (recenter b) * c_volume (cs ! ch)))"
    and cs': "cs' = cs[ch := (cs ! ch)\<lparr>sample_pos :=
                 rnd (sample_pos (cs ! ch) + increment (cs ! ch))\<rparr>]"
    by (auto simp: add_sample_def Let_def split: sum.splits)
  from chans_ok_nth [OF cs ch] contribution_ok [OF ok]
  obtain kc :: int where kc: "\<bar>kc\<bar> \<le> 32640"
    "rnd (of_int (recenter b) * c_volume (cs ! ch)) = of_int kc / 64"
    by blast
  from add_contribution_ok [OF ok s j kc(1)] show "sum_ok (Suc j) s'"
    by (simp add: s' kc(2))
  from cs chans_ok_nth [OF cs ch] show "chans_ok cs'"
    unfolding cs' by (intro chans_ok_update) simp_all
  show "length cs' = length cs"
    by (simp add: cs')
qed

lemma mix_channel_ok:
  assumes ok: "float_exact rnd" and cs: "chans_ok cs"
    and s: "sum_ok j s" and j: "j < 32"
    and run: "mix_channel rnd cs ch s = Inr (s', cs')"
  shows "sum_ok (Suc j) s'" and "chans_ok cs'" and "length cs' = length cs"
proof -
  from run have ch: "ch < length cs"
    by (auto simp: mix_channel_def split: if_splits)
  note keep = sum_ok_mono [OF s, of "Suc j"]
  note stop = chans_ok_update [OF cs, of "(cs ! ch)\<lparr>playing := False\<rparr>" ch]
  note add = add_sample_ok [OF ok cs ch s j]
  from run ch keep stop chans_ok_nth [OF cs ch] cs
  show "sum_ok (Suc j) s'" and "chans_ok cs'" and "length cs' = length cs"
    by (auto simp: mix_channel_def Let_def split: if_splits option.splits dest: add)
qed

lemma mix_channels_ok:
  assumes ok: "float_exact rnd"
  shows "chans_ok cs \<Longrightarrow> sum_ok j s \<Longrightarrow> j + length chs \<le> 32
    \<Longrightarrow> mix_channels rnd cs chs s = Inr (s', cs')
    \<Longrightarrow> sum_ok (j + length chs) s' \<and> chans_ok cs' \<and> length cs' = length cs"
proof (induction chs arbitrary: cs s j)
  case Nil
  then show ?case by simp
next
  case (Cons ch chs)
  from Cons.prems(4) obtain s1 cs1 where
    one: "mix_channel rnd cs ch s = Inr (s1, cs1)"
    and rest: "mix_channels rnd cs1 chs s1 = Inr (s', cs')"
    by (auto split: sum.splits)
  from Cons.prems(3) have j: "j < 32" and j': "Suc j + length chs \<le> 32"
    by simp_all
  note step = mix_channel_ok [OF ok Cons.prems(1,2) j one]
  from Cons.IH [OF step(2) step(1) j' rest] step(3)
  show ?case by simp
qed



lemma py_int_of_int: "py_int (of_int z) = z"
  by (simp add: py_int_def)

lemma to_pcm_exact_sum:
  assumes ok: "float_exact rnd" and s: "sum_ok 32 s"
  shows "to_pcm rnd s = to_pcm_spec s"
proof -
  from s obtain k :: int where k: "\<bar>k\<bar> \<le> 32640 * 32" "s = of_int k / 64"
    by (auto simp: sum_ok_def)
  from k(1) have "\<bar>k * 128\<bar> \<le> 2 ^ 40" by (simp add: abs_mult)
  from float_exactD [OF ok this] have m: "rnd (s * 128) = of_int (k * 128) / 64"
    by (simp add: k(2))
  from k(1) have "\<bar>k * 128 + 8192\<bar> \<le> 2 ^ 40" by (simp add: abs_le_iff)
  from float_exactD [OF ok this]
  have "rnd (rnd (s * 128) + 128) = of_int (k * 128 + 8192) / 64"
    by (simp add: m add_divide_distrib)
  also have "\<dots> = of_int (2 * k + 128)"
    by simp
  finally have a: "rnd (rnd (s * 128) + 128) = of_int (2 * k + 128)" .
  have b: "s * 128 + 128 = of_int (2 * k + 128)"
    by (simp add: k(2))
  show ?thesis
    unfolding to_pcm_def to_pcm_spec_def a b py_int_of_int round_of_int
    by simp
qed


lemma mix_sample_exact:
  assumes ok: "float_exact rnd" and n: "channels parser \<le> 32" and cs: "chans_ok cs"
  shows "mix_sample (to_pcm rnd) rnd parser cs = mix_sample to_pcm_spec rnd parser cs"
    and "mix_sample pcm rnd parser cs = Inr (x, cs') \<Longrightarrow> chans_ok cs'"
proof -
  have zero: "sum_ok 0 0"
    by (simp add: sum_ok_def)
  have len: "0 + length [0..<channels parser] \<le> 32"
    using n by simp
  note mixed = mix_channels_ok [OF ok cs zero len]
  show "mix_sample (to_pcm rnd) rnd parser cs = mix_sample to_pcm_spec rnd parser cs"
  proof (cases "mix_channels rnd cs [0..<channels parser] 0")
    case (Inl e)
    then show ?thesis by (simp only: mix_sample_def sum.case)
  next
    case (Inr r)
    obtain s cs1 where r: "r = (s, cs1)" by (cases r)
    with Inr have run: "mix_channels rnd cs [0..<channels parser] 0 = Inr (s, cs1)"
      by (simp only:)
    from mixed [OF run] have "sum_ok (0 + length [0..<channels parser]) s"
      by (rule conjunct1)
    then have "sum_ok 32 s"
      using len by (rule sum_ok_mono)
    from to_pcm_exact_sum [OF ok this] show ?thesis
      by (simp only: mix_sample_def run sum.case prod.case)
  qed
  show "chans_ok cs'" if run: "mix_sample pcm rnd parser cs = Inr (x, cs')"
  proof (cases "mix_channels rnd cs [0..<channels parser] 0")
    case (Inl e)
    with run show ?thesis by (simp only: mix_sample_def sum.case sum.distinct)
  next
    case (Inr r)
    obtain s cs1 where r: "r = (s, cs1)" by (cases r)
    with Inr have mix: "mix_channels rnd cs [0..<channels parser] 0 = Inr (s, cs1)"
      by (simp only:)
    with run have "cs1 = cs'"
      by (simp only: mix_sample_def sum.case prod.case sum.inject prod.inject)
    with mixed [OF mix] show ?thesis by (simp only:)
  qed
qed


lemma render_samples_ok:
  assumes ok: "float_exact rnd" and n: "channels parser \<le> 32"
  shows "chans_ok cs \<Longrightarrow> render_samples pcm rnd parser k cs = Inr (out, cs')
    \<Longrightarrow> chans_ok cs'"
proof (induction k arbitrary: cs out)
  case 0
  then show ?case by simp
next
  case (Suc k)
  from Suc.prems(2) obtain x cs1 out1 where
    one: "mix_sample pcm rnd parser cs = Inr (x, cs1)"
    and rest: "render_samples pcm rnd parser k cs1 = Inr (out1, cs')"
    by (auto split: sum.splits)
  from mix_sample_exact(2) [OF ok n Suc.prems(1) one] have "chans_ok cs1" .
  from Suc.IH [OF this rest] show ?case .
qed


lemma render_rows_ok:
  assumes ok: "float_exact rnd" and n: "channels parser \<le> 32" and insts: "insts_ok parser"
  shows "chans_ok cs \<Longrightarrow> render_rows pcm rnd parser k cs rows = Inr (out, cs')
    \<Longrightarrow> chans_ok cs'"
proof (induction rows arbitrary: cs out)
  case Nil
  then show ?case by simp
next
  case (Cons row rows)
  from Cons.prems(2) obtain cs1 out1 cs2 out2 where
    events: "process_row rnd parser cs 0 row = Inr cs1"
    and samples: "render_samples pcm rnd parser k cs1 = Inr (out1, cs2)"
    and rest: "render_rows pcm rnd parser k cs2 rows = Inr (out2, cs')"
    by (auto split: sum.splits)
  from process_row_ok [OF ok insts Cons.prems(1) events] have "chans_ok cs1" .
  from render_samples_ok [OF ok n this samples] have "chans_ok cs2" .
  from Cons.IH [OF this rest] show ?case .
qed


lemma render_orders_ok:
  assumes ok: "float_exact rnd" and n: "channels parser \<le> 32" and insts: "insts_ok parser"
  shows "chans_ok cs \<Longrightarrow> render_orders pcm rnd parser k cs os = Inr (out, cs')
    \<Longrightarrow> chans_ok cs'"
proof (induction os arbitrary: cs out)
  case Nil
  then show ?case by simp
next
  case (Cons order os)
  show ?case
  proof (cases "unat order < length (patterns parser)")
    case False
    with Cons show ?thesis by simp
  next
    case True
    with Cons.prems(2) obtain out1 cs1 out2 where
      rows: "render_rows pcm rnd parser k cs (patterns parser ! unat order) = Inr (out1, cs1)"
      and rest: "render_orders pcm rnd parser k cs1 os = Inr (out2, cs')"
      by (auto split: sum.splits)
    from render_rows_ok [OF ok n insts Cons.prems(1) rows] have "chans_ok cs1" .
    from Cons.IH [OF this rest] show ?thesis .
  qed
qed






end
